theory Spec2Isabelle
  imports Complex_Main "HOL-Library.Word"
begin

unbundle bit_operations_syntax

section \<open>Values of the Go program\<close>

text \<open>
  Package \<open>face\<close> (file \<open>skin.go\<close>) works on the types of Go's standard packages
  \<open>image\<close>, \<open>image/color\<close> and \<open>image/draw\<close>. The parts of those packages that
  \<open>skin.go\<close> calls are written out below as the standard library defines them; everything
  named after a function of \<open>skin.go\<close> is a translation of that function.

  Go's \<open>int\<close> is modelled as \<open>int\<close>: coordinates and buffer offsets of an image that
  fits in memory stay far from 64-bit overflow. \<open>uint8\<close> and \<open>uint32\<close> are words, so
  their arithmetic wraps as in Go. A run-time panic is a value of type \<open>panic\<close>.
\<close>

type_synonym uint8 = "8 word"
type_synonym uint32 = "32 word"

datatype panic =
    IndexOutOfRange       \<comment> \<open>a slice or array index outside the slice\<close>
  | NegativeDimensions    \<comment> \<open>\<open>image.NewAlpha\<close> on a rectangle of negative width or height\<close>
  | SubimageMask          \<comment> \<open>\<open>panic("skinMaskColorRGBA: doesn't support subimage masks")\<close>\<close>

subsection \<open>image.Rectangle\<close>

text \<open>\<open>Rectangle{Min, Max Point}\<close>, with the two points flattened to four fields.\<close>

record Rectangle =
  MinX :: int
  MinY :: int
  MaxX :: int
  MaxY :: int

definition Dx :: "Rectangle \<Rightarrow> int" where
  "Dx r = MaxX r - MinX r"

definition Dy :: "Rectangle \<Rightarrow> int" where
  "Dy r = MaxY r - MinY r"

text \<open>\<open>Point{x, y}.In(r)\<close>: rectangles contain their minimum and exclude their maximum.\<close>

definition PointIn :: "int \<Rightarrow> int \<Rightarrow> Rectangle \<Rightarrow> bool" where
  "PointIn x y r = (MinX r \<le> x \<and> x < MaxX r \<and> MinY r \<le> y \<and> y < MaxY r)"

subsection \<open>Floating point\<close>

text \<open>
  The program divides floating-point numbers in two places: \<open>float32(r)/float32(g)\<close>, compared
  with the constant 2.5, and \<open>float64(m)/float64(r.Dy()*r.Dx())\<close>, the coverage. Both operands
  are integers converted exactly (8-bit or 16-bit channel values, pixel counts), so the IEEE
  quotient is \<open>NaN\<close> for 0/0, an infinity for x/0, and otherwise the float nearest to the exact
  quotient. \<open>Finite q\<close> stands for the float nearest to the rational \<open>q\<close>. Go's floating-point
  division never panics.

  Rounding is monotone and 5/2 is a float, so \<open>fl(q) \<ge> 5/2\<close> whenever \<open>q \<ge> 5/2\<close>; and for
  integers \<open>r\<close> and \<open>0 < g < 2 ^ 16\<close> with \<open>r/g < 5/2\<close> the gap \<open>5/2 - r/g\<close> is at least
  \<open>1/(2 * g)\<close>, far more than the spacing \<open>2 ^ -22\<close> of \<open>float32\<close> near 2.5, so
  \<open>fl(r/g) < 5/2\<close>. Hence \<open>fge\<close> on the exact quotient decides the program's comparison for
  channel values in the range \<open>[0, 0xffff]\<close> that \<open>color.Color\<close> promises.
\<close>

datatype float = NaN | PosInf | NegInf | Finite rat

definition fdiv :: "int \<Rightarrow> int \<Rightarrow> float" where
  "fdiv a b =
     (if b = 0 then (if a = 0 then NaN else if 0 < a then PosInf else NegInf)
      else Finite (of_int a / of_int b))"

text \<open>\<open>x >= c\<close> for a float \<open>x\<close> and a finite constant \<open>c\<close>; every comparison with NaN is false.\<close>

fun fge :: "float \<Rightarrow> rat \<Rightarrow> bool" where
  "fge NaN c = False"
| "fge PosInf c = True"
| "fge NegInf c = False"
| "fge (Finite q) c = (c \<le> q)"

subsection \<open>image.RGBA and image.Alpha\<close>

text \<open>
  \<open>Pix\<close> holds the pixels, \<open>Stride\<close> is the distance in bytes between vertically adjacent
  pixels, \<open>Rect\<close> is the bounds. An \<open>RGBA\<close> has four bytes per pixel (R, G, B, A), an
  \<open>Alpha\<close> has one.
\<close>

record RGBA =
  Pix :: "uint8 list"
  Stride :: int
  Rect :: Rectangle

record Alpha =
  APix :: "uint8 list"
  AStride :: int
  ARect :: Rectangle

text \<open>The result of \<open>Color.RGBA()\<close>: red, green, blue, alpha as \<open>uint32\<close>.\<close>

type_synonym color = "uint32 \<times> uint32 \<times> uint32 \<times> uint32"

text \<open>\<open>color.RGBA.RGBA()\<close> widens each byte: \<open>r = uint32(c.R); r |= r << 8\<close>.\<close>

definition widen :: "uint8 \<Rightarrow> uint32" where
  "widen c = (ucast c) OR (push_bit 8 (ucast c))"

text \<open>
  \<open>(*RGBA).At(x, y).RGBA()\<close>: the zero colour outside \<open>Rect\<close>; inside, the four bytes at
  \<open>PixOffset(x, y)\<close>, and a panic when the buffer is too short for them (the capacity of
  \<open>Pix\<close> is taken to be its length).
\<close>

definition RGBA_PixOffset :: "RGBA \<Rightarrow> int \<Rightarrow> int \<Rightarrow> int" where
  "RGBA_PixOffset p x y = (y - MinY (Rect p)) * Stride p + (x - MinX (Rect p)) * 4"

definition RGBA_At :: "RGBA \<Rightarrow> int \<Rightarrow> int \<Rightarrow> panic + color" where
  "RGBA_At p x y =
     (if \<not> PointIn x y (Rect p) then Inr (0, 0, 0, 0)
      else let i = RGBA_PixOffset p x y in
        if 0 \<le> i \<and> i + 4 \<le> int (length (Pix p))
        then Inr (widen (Pix p ! nat i), widen (Pix p ! nat (i + 1)),
                  widen (Pix p ! nat (i + 2)), widen (Pix p ! nat (i + 3)))
        else Inl IndexOutOfRange)"

text \<open>
  \<open>(*Alpha).Set(x, y, color.Opaque)\<close>: nothing outside \<open>Rect\<close>; inside, the byte at
  \<open>PixOffset(x, y)\<close> becomes \<open>uint8(0xffff >> 8) = 255\<close>.
\<close>

definition Alpha_PixOffset :: "Alpha \<Rightarrow> int \<Rightarrow> int \<Rightarrow> int" where
  "Alpha_PixOffset p x y = (y - MinY (ARect p)) * AStride p + (x - MinX (ARect p)) * 1"

definition Alpha_SetOpaque :: "Alpha \<Rightarrow> int \<Rightarrow> int \<Rightarrow> panic + Alpha" where
  "Alpha_SetOpaque p x y =
     (if \<not> PointIn x y (ARect p) then Inr p
      else let i = Alpha_PixOffset p x y in
        if 0 \<le> i \<and> i < int (length (APix p))
        then Inr (p\<lparr>APix := (APix p)[nat i := 255]\<rparr>)
        else Inl IndexOutOfRange)"

text \<open>\<open>image.NewAlpha(r)\<close>: a zeroed buffer of \<open>Dx * Dy\<close> bytes, stride \<open>Dx\<close>.\<close>

definition NewAlpha :: "Rectangle \<Rightarrow> panic + Alpha" where
  "NewAlpha r =
     (if Dx r < 0 \<or> Dy r < 0 then Inl NegativeDimensions
      else Inr \<lparr>APix = replicate (nat (1 * Dx r * Dy r)) 0, AStride = 1 * Dx r, ARect = r\<rparr>)"

section \<open>skinMaskColorRGBA: the mask walker over a packed buffer\<close>

text \<open>
  The three tests of the loop body (lines 129 to 137), on the red and green bytes. The
  subtraction \<open>r - g\<close> is a \<open>uint8\<close> subtraction.
\<close>

definition skinRGBA :: "uint8 \<Rightarrow> uint8 \<Rightarrow> bool" where
  "skinRGBA r g =
     (if r < 75 then False
      else if r - g < 20 \<or> r - g > 90 then False
      else if fge (fdiv (uint r) (uint g)) (5 / 2) then False
      else True)"

text \<open>
  The loop \<open>for pix := src.Pix; sp != ep; sp += 4\<close>. Its state is the read offset \<open>sp\<close>,
  the mask offset \<open>mp\<close>, the count \<open>n\<close> and the mask's buffer. It ends when \<open>sp\<close>
  reaches \<open>ep\<close> or when an index leaves its slice.
\<close>

function skinMaskColorRGBA_loop ::
  "uint8 list \<Rightarrow> int \<Rightarrow> int \<Rightarrow> int \<Rightarrow> int \<Rightarrow> uint8 list \<Rightarrow> panic + (uint8 list \<times> int)" where
  "skinMaskColorRGBA_loop pix ep sp mp n mpix =
     (if sp = ep then Inr (mpix, n)
      else if \<not> (0 \<le> sp \<and> sp + 1 < int (length pix)) then Inl IndexOutOfRange
      else if \<not> skinRGBA (pix ! nat sp) (pix ! nat (sp + 1))
        then skinMaskColorRGBA_loop pix ep (sp + 4) (mp + 1) n mpix
      else if \<not> (0 \<le> mp + 1 \<and> mp + 1 < int (length mpix)) then Inl IndexOutOfRange
      else skinMaskColorRGBA_loop pix ep (sp + 4) (mp + 1) (n + 1) (mpix[nat (mp + 1) := 255]))"
  by pat_completeness auto
termination
  by (relation "measure (\<lambda>(pix, ep, sp, mp, n, mpix). nat (int (length pix) - sp))") auto

definition skinMaskColorRGBA :: "RGBA \<Rightarrow> Alpha \<Rightarrow> panic + (Alpha \<times> float)" where
  "skinMaskColorRGBA src msk =
     (let r = ARect msk in
      if Rect src \<noteq> r then Inl SubimageMask
      else
        let sp = (MinY r - MinY (Rect src)) * Stride src + (MinX r - MinX (Rect src)) * 4;
            ep = Dx r * Dy r * 4
        in case skinMaskColorRGBA_loop (Pix src) ep sp (- 1) 0 (APix msk) of
             Inl e \<Rightarrow> Inl e
           | Inr (mpix, n) \<Rightarrow> Inr (msk\<lparr>APix := mpix\<rparr>, fdiv n (Dy r * Dx r)))"

section \<open>The abstract interfaces image.Image and draw.Image\<close>

text \<open>
  \<open>src\<close> is an \<open>image.Image\<close>: either a \<open>*image.RGBA\<close> or some other implementation, given
  by its bounds and by the function \<open>At(x, y).RGBA()\<close>. \<open>mask\<close> is a \<open>draw.Image\<close>: either a
  \<open>*image.Alpha\<close> or some other implementation, given by its bounds, the effect of
  \<open>Set(x, y, color.Opaque)\<close> on its state, and its state. A \<open>nil\<close> mask is \<open>None\<close>.
\<close>

datatype Image = ImageRGBA RGBA | ImageOther Rectangle "int \<Rightarrow> int \<Rightarrow> color"

datatype 'm DrawImage = DrawAlpha Alpha | DrawOther Rectangle "int \<Rightarrow> int \<Rightarrow> 'm \<Rightarrow> 'm" 'm

fun Bounds :: "Image \<Rightarrow> Rectangle" where
  "Bounds (ImageRGBA p) = Rect p"
| "Bounds (ImageOther r f) = r"

fun At :: "Image \<Rightarrow> int \<Rightarrow> int \<Rightarrow> panic + color" where
  "At (ImageRGBA p) x y = RGBA_At p x y"
| "At (ImageOther r f) x y = Inr (f x y)"

fun DrawBounds :: "'m DrawImage \<Rightarrow> Rectangle" where
  "DrawBounds (DrawAlpha p) = ARect p"
| "DrawBounds (DrawOther r f st) = r"

fun SetOpaque :: "'m DrawImage \<Rightarrow> int \<Rightarrow> int \<Rightarrow> panic + 'm DrawImage" where
  "SetOpaque (DrawAlpha p) x y =
     (case Alpha_SetOpaque p x y of Inl e \<Rightarrow> Inl e | Inr p' \<Rightarrow> Inr (DrawAlpha p'))"
| "SetOpaque (DrawOther r f st) x y = Inr (DrawOther r f (f x y st))"

section \<open>skinMaskColor: the mask walker over the interfaces\<close>

text \<open>
  Modelled from the spec: the values of \<open>minR\<close>, \<open>minRGdelta\<close> and \<open>maxRGdelta\<close> of
  lines 81 to 83. The source initialises them with \<open>75 << 8 || 75\<close>, \<open>20 << 8 || 20\<close>
  and \<open>90 << 8 || 90\<close>, which have no value in Go (\<open>||\<close> is not defined on integer
  constants). Section 4.1 of the spec asks for the 16-bit equivalents of the 8-bit
  thresholds, the threshold multiplied by 257. That is the value of the same expressions
  with the bitwise operator, \<open>75 << 8 | 75\<close>, and it is what \<open>color.RGBA.RGBA()\<close> makes
  of the byte 75.
\<close>

definition minR :: uint32 where
  "minR = push_bit 8 75 OR 75"

definition minRGdelta :: uint32 where
  "minRGdelta = push_bit 8 20 OR 20"

definition maxRGdelta :: uint32 where
  "maxRGdelta = push_bit 8 90 OR 90"

text \<open>The three tests of the loop body (lines 91 to 99); \<open>r - g\<close> is a \<open>uint32\<close> subtraction.\<close>

definition skinColor :: "uint32 \<Rightarrow> uint32 \<Rightarrow> bool" where
  "skinColor r g =
     (if r < minR then False
      else if r - g < minRGdelta \<or> r - g > maxRGdelta then False
      else if fge (fdiv (uint r) (uint g)) (5 / 2) then False
      else True)"

text \<open>
  The coordinates the two nested loops visit, in order: \<open>y\<close> from \<open>r.Min.Y\<close> to \<open>r.Max.Y\<close>
  and \<open>x\<close> from \<open>r.Min.X\<close> to \<open>r.Max.X\<close>, both ends included, as the conditions
  \<open>y <= r.Max.Y\<close> and \<open>x <= r.Max.X\<close> have it.
\<close>

definition walk :: "Rectangle \<Rightarrow> (int \<times> int) list" where
  "walk r = concat (map (\<lambda>y. map (\<lambda>x. (x, y)) [MinX r..MaxX r]) [MinY r..MaxY r])"

text \<open>
  The loop body on each coordinate. Next to the mask and the count \<open>m\<close> the state keeps a
  log of the calls made on the two interfaces, which the program itself does not have.
\<close>

datatype call = CallAt int int | CallSet int int

fun skinMaskColor_loop ::
  "Image \<Rightarrow> (int \<times> int) list \<Rightarrow> 'm DrawImage \<times> int \<times> call list \<Rightarrow>
   panic + ('m DrawImage \<times> int \<times> call list)" where
  "skinMaskColor_loop src [] st = Inr st"
| "skinMaskColor_loop src ((x, y) # ps) (msk, m, calls) =
     (case At src x y of
        Inl e \<Rightarrow> Inl e
      | Inr (r, g, b, a) \<Rightarrow>
          if \<not> skinColor r g then skinMaskColor_loop src ps (msk, m, calls @ [CallAt x y])
          else
            (case SetOpaque msk x y of
               Inl e \<Rightarrow> Inl e
             | Inr msk' \<Rightarrow>
                 skinMaskColor_loop src ps (msk', m + 1, calls @ [CallAt x y, CallSet x y])))"

text \<open>Lines 80 to 104: the walk over the mask's bounds, with the log of its calls.\<close>

definition skinMaskColor_walk ::
  "Image \<Rightarrow> 'm DrawImage \<Rightarrow> panic + ('m DrawImage \<times> float \<times> call list)" where
  "skinMaskColor_walk src msk =
     (let r = DrawBounds msk in
      case skinMaskColor_loop src (walk r) (msk, 0, []) of
        Inl e \<Rightarrow> Inl e
      | Inr (msk', m, calls) \<Rightarrow> Inr (msk', fdiv m (Dy r * Dx r), calls))"

definition skinMaskColor_generic ::
  "Image \<Rightarrow> 'm DrawImage \<Rightarrow> panic + ('m DrawImage \<times> float)" where
  "skinMaskColor_generic src msk =
     (case skinMaskColor_walk src msk of
        Inl e \<Rightarrow> Inl e
      | Inr (msk', cover, calls) \<Rightarrow> Inr (msk', cover))"

text \<open>
  Lines 66 to 78: a \<open>nil\<close> mask is replaced by \<open>image.NewAlpha(src.Bounds())\<close>; the packed
  walker runs when the bounds are equal, \<open>src\<close> is a \<open>*image.RGBA\<close> and the mask is a
  \<open>*image.Alpha\<close> (\<open>amask\<close>); the generic walk runs otherwise.
\<close>

definition skinMaskColor ::
  "Image \<Rightarrow> 'm DrawImage option \<Rightarrow> panic + ('m DrawImage \<times> float)" where
  "skinMaskColor src mask0 =
     (case (case mask0 of
              None \<Rightarrow> (case NewAlpha (Bounds src) of Inl e \<Rightarrow> Inl e | Inr p \<Rightarrow> Inr (DrawAlpha p))
            | Some d \<Rightarrow> Inr d) of
        Inl e \<Rightarrow> Inl e
      | Inr msk \<Rightarrow>
          (case (src, msk) of
             (ImageRGBA s, DrawAlpha p) \<Rightarrow>
               if Bounds src = DrawBounds msk
               then (case skinMaskColorRGBA s p of
                       Inl e \<Rightarrow> Inl e
                     | Inr (p', cover) \<Rightarrow> Inr (DrawAlpha p', cover))
               else skinMaskColor_generic src msk
           | _ \<Rightarrow> skinMaskColor_generic src msk))"

definition SkinMask ::
  "Image \<Rightarrow> 'm DrawImage option \<Rightarrow> panic + ('m DrawImage \<times> float)" where
  "SkinMask src mask0 = skinMaskColor src mask0"

section \<open>Content and contentRGBA\<close>

text \<open>
  The histogram \<open>C\<close> is an array of bytes, so \<open>C[i]++\<close> wraps at 256. The final count of
  the entries above the threshold 64 is clamped to 255 and returned as a byte.
\<close>

definition bump :: "uint8 list \<Rightarrow> nat \<Rightarrow> uint8 list" where
  "bump C i = C[i := C ! i + 1]"

definition score :: "uint8 list \<Rightarrow> uint8" where
  "score C =
     (let n = int (length (filter (\<lambda>v. v > 64) C)) in
      word_of_int (if n > 255 then 255 else n))"

text \<open>\<open>(pix[sp]+pix[sp+1]+pix[sp+2])/3\<close> of line 154: a sum and a division of bytes.\<close>

definition bucketRGBA :: "uint8 \<Rightarrow> uint8 \<Rightarrow> uint8 \<Rightarrow> uint8" where
  "bucketRGBA r g b = (r + g + b) div 3"

function contentRGBA_loop :: "uint8 list \<Rightarrow> int \<Rightarrow> int \<Rightarrow> uint8 list \<Rightarrow> panic + uint8 list" where
  "contentRGBA_loop pix ep sp C =
     (if sp = ep then Inr C
      else if \<not> (0 \<le> sp \<and> sp + 2 < int (length pix)) then Inl IndexOutOfRange
      else contentRGBA_loop pix ep (sp + 4)
             (bump C (unat (bucketRGBA (pix ! nat sp) (pix ! nat (sp + 1)) (pix ! nat (sp + 2))))))"
  by pat_completeness auto
termination
  by (relation "measure (\<lambda>(pix, ep, sp, C). nat (int (length pix) - sp))") auto

definition contentRGBA_hist :: "RGBA \<Rightarrow> panic + uint8 list" where
  "contentRGBA_hist src =
     (let r = Rect src;
          sp = (MinY r - MinY (Rect src)) * Stride src + (MinX r - MinX (Rect src)) * 4;
          ep = Dx (Rect src) * Dy (Rect src) * 4
      in contentRGBA_loop (Pix src) ep sp (replicate 256 0))"

definition contentRGBA :: "RGBA \<Rightarrow> panic + uint8" where
  "contentRGBA src = (case contentRGBA_hist src of Inl e \<Rightarrow> Inl e | Inr C \<Rightarrow> Inr (score C))"

text \<open>
  Lines 42 to 53 of \<open>Content\<close>: each channel shifted down to 8 bits, the sum taken in
  \<open>uint32\<close>, the average \<open>Y\<close> truncated to a byte for the index.
\<close>

definition bucketColor :: "uint32 \<Rightarrow> uint32 \<Rightarrow> uint32 \<Rightarrow> uint8" where
  "bucketColor r g b =
     (let r = drop_bit 8 r; g = drop_bit 8 g; b = drop_bit 8 b;
          Y = uint (r + g + b) div 3
      in word_of_int Y)"

fun Content_loop :: "Image \<Rightarrow> (int \<times> int) list \<Rightarrow> uint8 list \<Rightarrow> panic + uint8 list" where
  "Content_loop src [] C = Inr C"
| "Content_loop src ((x, y) # ps) C =
     (case At src x y of
        Inl e \<Rightarrow> Inl e
      | Inr (r, g, b, a) \<Rightarrow> Content_loop src ps (bump C (unat (bucketColor r g b))))"

definition Content_hist :: "Image \<Rightarrow> Rectangle \<Rightarrow> panic + uint8 list" where
  "Content_hist src r = Content_loop src (walk r) (replicate (256 * 3) 0)"

definition Content_generic :: "Image \<Rightarrow> Rectangle \<Rightarrow> panic + uint8" where
  "Content_generic src r =
     (case Content_hist src r of Inl e \<Rightarrow> Inl e | Inr C \<Rightarrow> Inr (score C))"

definition Content :: "Image \<Rightarrow> Rectangle \<Rightarrow> panic + uint8" where
  "Content src r =
     (case src of
        ImageRGBA s \<Rightarrow> if Bounds src = r then contentRGBA s else Content_generic src r
      | _ \<Rightarrow> Content_generic src r)"

section \<open>Concrete inputs\<close>

text \<open>
  The 2x2 image of the spec's scenario, with any alpha bytes: (200,100,50), (150,110,60),
  (80,10,10), (30,20,10).
\<close>

definition scenario :: "uint8 \<Rightarrow> uint8 \<Rightarrow> uint8 \<Rightarrow> uint8 \<Rightarrow> RGBA" where
  "scenario a1 a2 a3 a4 =
     \<lparr>Pix = [200, 100, 50, a1, 150, 110, 60, a2, 80, 10, 10, a3, 30, 20, 10, a4],
      Stride = 8, Rect = \<lparr>MinX = 0, MinY = 0, MaxX = 2, MaxY = 2\<rparr>\<rparr>"

text \<open>A 1x1 image whose only pixel has R = 75 and G = 255, and the mask \<open>NewAlpha\<close> gives it.\<close>

definition greenish :: RGBA where
  "greenish = \<lparr>Pix = [75, 255, 0, 255], Stride = 4,
               Rect = \<lparr>MinX = 0, MinY = 0, MaxX = 1, MaxY = 1\<rparr>\<rparr>"

definition cell :: Alpha where
  "cell = \<lparr>APix = [0], AStride = 1, ARect = \<lparr>MinX = 0, MinY = 0, MaxX = 1, MaxY = 1\<rparr>\<rparr>"

text \<open>A 2x1 image of two pixels (150,110,60,255); \<open>cell\<close> is a mask over its left pixel.\<close>

definition pair :: RGBA where
  "pair = \<lparr>Pix = [150, 110, 60, 255, 150, 110, 60, 255], Stride = 8,
           Rect = \<lparr>MinX = 0, MinY = 0, MaxX = 2, MaxY = 1\<rparr>\<rparr>"

text \<open>A black image one pixel wide and 64 pixels high.\<close>

definition black64 :: RGBA where
  "black64 = \<lparr>Pix = replicate 256 0, Stride = 4,
              Rect = \<lparr>MinX = 0, MinY = 0, MaxX = 1, MaxY = 64\<rparr>\<rparr>"

text \<open>An image of \<open>w\<close> by \<open>h\<close> pixels, all of them \<open>(r, g, b, a)\<close>.\<close>

definition uniform :: "nat \<Rightarrow> nat \<Rightarrow> uint8 \<Rightarrow> uint8 \<Rightarrow> uint8 \<Rightarrow> uint8 \<Rightarrow> RGBA" where
  "uniform w h r g b a =
     \<lparr>Pix = concat (replicate (w * h) [r, g, b, a]), Stride = 4 * int w,
      Rect = \<lparr>MinX = 0, MinY = 0, MaxX = int w, MaxY = int h\<rparr>\<rparr>"

text \<open>The rightmost column of a 2x65 image, as a region for \<open>Content\<close>.\<close>

definition column :: Rectangle where
  "column = \<lparr>MinX = 1, MinY = 0, MaxX = 2, MaxY = 65\<rparr>"

text \<open>
  An image of \<open>w\<close> by \<open>h1 + h2\<close> pixels: the upper \<open>h1\<close> rows are \<open>(r, g, b, a)\<close>, the
  lower \<open>h2\<close> rows are (0,0,0,0).
\<close>

definition bands :: "nat \<Rightarrow> nat \<Rightarrow> nat \<Rightarrow> uint8 \<Rightarrow> uint8 \<Rightarrow> uint8 \<Rightarrow> uint8 \<Rightarrow> RGBA" where
  "bands w h1 h2 r g b a =
     \<lparr>Pix = concat (replicate (w * h1) [r, g, b, a]) @ replicate (4 * (w * h2)) 0,
      Stride = 4 * int w,
      Rect = \<lparr>MinX = 0, MinY = 0, MaxX = int w, MaxY = int (h1 + h2)\<rparr>\<rparr>"

text \<open>
  A 6x11 image: six rows of the colour (86,85,85,255), whose channels add up to 256, over
  five rows of (0,0,0,0).
\<close>

definition stripes :: RGBA where
  "stripes = bands 6 6 5 86 85 85 255"

section \<open>Evaluation and loop lemmas\<close>

declare skinMaskColorRGBA_loop.simps [simp del]

declare contentRGBA_loop.simps [simp del]

lemmas mask_defs =
  Dx_def Dy_def PointIn_def fdiv_def widen_def RGBA_PixOffset_def RGBA_At_def
  Alpha_PixOffset_def Alpha_SetOpaque_def NewAlpha_def skinRGBA_def skinMaskColorRGBA_def
  minR_def minRGdelta_def maxRGdelta_def skinColor_def walk_def skinMaskColor_walk_def
  skinMaskColor_generic_def skinMaskColor_def SkinMask_def skinMaskColorRGBA_loop.simps
  upto.simps

lemma replicate_numeral: "replicate (numeral k) x = x # replicate (pred_numeral k) x"
  by (simp add: numeral_eq_Suc)

lemma list_update_numeral: "(x # xs)[numeral k := v] = x # xs[pred_numeral k := v]"
  by (simp add: numeral_eq_Suc)

lemma length_walk: "length (walk r) = nat (MaxX r - MinX r + 1) * nat (MaxY r - MinY r + 1)"
  by (simp add: walk_def length_concat comp_def sum_list_triv)

subsection \<open>The content walkers on an image of one colour\<close>

lemma Content_loop_const:
  assumes "\<And>x y. (x, y) \<in> set ps \<Longrightarrow> At src x y = Inr (r, g, b, a)"
    and "k = unat (bucketColor r g b)" and "k < length C"
  shows "Content_loop src ps C = Inr (C[k := C ! k + of_nat (length ps)])"
  using assms
proof (induction ps arbitrary: C)
  case Nil
  then show ?case by simp
next
  case (Cons p ps)
  obtain x y where p: "p = (x, y)" by (cases p)
  have at: "At src x y = Inr (r, g, b, a)" using Cons.prems(1) p by simp
  have len: "k < length (bump C k)" using Cons.prems(3) by (simp add: bump_def)
  have "Content_loop src ps (bump C k) = Inr ((bump C k)[k := bump C k ! k + of_nat (length ps)])"
    using Cons.IH [OF _ Cons.prems(2) len] Cons.prems(1) by simp
  then show ?case using at p Cons.prems(2,3) by (simp add: bump_def ac_simps)
qed

lemma contentRGBA_loop_step:
  "sp \<noteq> ep \<Longrightarrow> 0 \<le> sp \<Longrightarrow> sp + 2 < int (length pix) \<Longrightarrow>
   contentRGBA_loop pix ep sp C =
     contentRGBA_loop pix ep (sp + 4)
       (bump C (unat (bucketRGBA (pix ! nat sp) (pix ! nat (sp + 1)) (pix ! nat (sp + 2)))))"
  by (subst contentRGBA_loop.simps) simp

lemma contentRGBA_loop_done: "contentRGBA_loop pix ep ep C = Inr C"
  by (subst contentRGBA_loop.simps) simp

lemma nth_concat_replicate:
  "j < n \<Longrightarrow> c < m \<Longrightarrow> length xs = m \<Longrightarrow> concat (replicate n xs) ! (m * j + c) = xs ! c"
proof (induction n arbitrary: j)
  case 0
  then show ?case by simp
next
  case (Suc n)
  show ?case
  proof (cases j)
    case 0
    then show ?thesis using Suc.prems by (simp add: nth_append)
  next
    case (Suc j')
    then show ?thesis using Suc.prems Suc.IH [of j'] by (simp add: nth_append)
  qed
qed

lemma pixels_nth:
  assumes "j < n"
  shows "concat (replicate n [r, g, b, a]) ! nat (4 * int j) = r"
    and "concat (replicate n [r, g, b, a]) ! nat (4 * int j + 1) = g"
    and "concat (replicate n [r, g, b, a]) ! nat (4 * int j + 2) = b"
proof -
  have i0: "nat (4 * int j) = 4 * j + 0" by simp
  have i1: "nat (4 * int j + 1) = 4 * j + 1" by (simp add: nat_add_distrib nat_mult_distrib)
  have i2: "nat (4 * int j + 2) = 4 * j + 2" by (simp add: nat_add_distrib nat_mult_distrib)
  show "concat (replicate n [r, g, b, a]) ! nat (4 * int j) = r"
    unfolding i0 by (subst nth_concat_replicate [where m = 4]) (simp_all add: assms)
  show "concat (replicate n [r, g, b, a]) ! nat (4 * int j + 1) = g"
    unfolding i1 by (subst nth_concat_replicate [where m = 4]) (simp_all add: assms)
  show "concat (replicate n [r, g, b, a]) ! nat (4 * int j + 2) = b"
    unfolding i2 by (subst nth_concat_replicate [where m = 4]) (simp_all add: assms)
qed

lemma pixels_length: "length (concat (replicate n [r, g, b, a])) = 4 * n"
  by (simp add: length_concat sum_list_replicate)

lemma contentRGBA_loop_uniform:
  assumes "k = unat (bucketRGBA r g b)" 
  shows "j \<le> n \<Longrightarrow> k < length C \<Longrightarrow>
     contentRGBA_loop (concat (replicate n [r, g, b, a])) (4 * int n) (4 * int j) C =
       Inr (C[k := C ! k + of_nat (n - j)])"
proof (induction "n - j" arbitrary: j C)
  case 0
  then show ?case by (simp add: contentRGBA_loop_done)
next
  case (Suc d)
  let ?pix = "concat (replicate n [r, g, b, a])"
  have j: "j < n" using Suc.hyps(2) by simp
  have sp: "4 * int j + 4 = 4 * int (Suc j)" by simp
  have "contentRGBA_loop ?pix (4 * int n) (4 * int j) C =
      contentRGBA_loop ?pix (4 * int n) (4 * int j + 4) (bump C k)"
    using j by (subst contentRGBA_loop_step) (simp_all add: pixels_length pixels_nth assms)
  then have step: "contentRGBA_loop ?pix (4 * int n) (4 * int j) C =
      contentRGBA_loop ?pix (4 * int n) (4 * int (Suc j)) (bump C k)"
    by (simp only: sp)
  have "contentRGBA_loop ?pix (4 * int n) (4 * int (Suc j)) (bump C k) =
      Inr ((bump C k)[k := bump C k ! k + of_nat (n - Suc j)])"
    using Suc.hyps(1) [of "Suc j" "bump C k"] Suc.hyps(2) Suc.prems j by (simp add: bump_def)
  moreover have "of_nat (n - j) = (1 :: uint8) + of_nat (n - Suc j)"
    using j by (simp add: Suc_diff_Suc)
  ultimately show ?case using step Suc.prems by (simp add: bump_def add.assoc)
qed

lemma contentRGBA_hist_uniform:
  "contentRGBA_hist (uniform w h r g b a) =
     Inr ((replicate 256 0)[unat (bucketRGBA r g b) := of_nat (w * h)])"
proof -
  have "unat (bucketRGBA r g b) < 256" using unsigned_less [of "bucketRGBA r g b", where 'a = nat] by simp
  then show ?thesis
    using contentRGBA_loop_uniform [of "unat (bucketRGBA r g b)" r g b 0 "w * h" "replicate 256 0" a]
    by (simp add: contentRGBA_hist_def uniform_def Dx_def Dy_def mult.commute)
qed


lemma score_single:
  assumes "k < 256"
  shows "score ((replicate 256 0)[k := c]) = (if c > 64 then 1 else 0)"
proof -
  have "(replicate 256 (0 :: uint8))[k := c] = replicate k 0 @ c # replicate (255 - k) 0"
    using assms by (simp add: upd_conv_take_nth_drop)
  then show ?thesis by (simp add: score_def)
qed

lemma contentRGBA_uniform:
  "contentRGBA (uniform w h r g b a) = Inr (if (of_nat (w * h) :: uint8) > 64 then 1 else 0)"
proof -
  have "unat (bucketRGBA r g b) < 256" using unsigned_less [of "bucketRGBA r g b", where 'a = nat] by simp
  then show ?thesis by (simp add: contentRGBA_def contentRGBA_hist_uniform score_single)
qed

lemma RGBA_At_black64: "RGBA_At black64 x y = Inr (0, 0, 0, 0)"
  by (auto simp add: black64_def RGBA_At_def PointIn_def RGBA_PixOffset_def widen_def Let_def)

lemma list_update_thrice: "k \<noteq> k' \<Longrightarrow> C[k' := u, k := v, k' := w] = C[k := v, k' := w]"
  by (simp add: list_update_swap [of k' k])

lemma Content_loop_two:
  assumes "\<And>x y. (x, y) \<in> set ps \<Longrightarrow> At src x y = Inr (if P (x, y) then (r, g, b, a) else (r', g', b', a'))"
    and "k = unat (bucketColor r g b)" and "k' = unat (bucketColor r' g' b')"
    and "k \<noteq> k'" and "k < length C" and "k' < length C"
  shows "Content_loop src ps C =
     Inr (C[k := C ! k + of_nat (length (filter P ps)),
            k' := C ! k' + of_nat (length (filter (\<lambda>p. \<not> P p) ps))])"
  using assms
proof (induction ps arbitrary: C)
  case Nil
  then show ?case by simp
next
  case (Cons p ps)
  obtain x y where p: "p = (x, y)" by (cases p)
  have at: "At src x y = Inr (if P (x, y) then (r, g, b, a) else (r', g', b', a'))"
    using Cons.prems(1) p by simp
  have rest: "\<And>x y. (x, y) \<in> set ps \<Longrightarrow>
      At src x y = Inr (if P (x, y) then (r, g, b, a) else (r', g', b', a'))"
    using Cons.prems(1) by simp
  show ?case
  proof (cases "P (x, y)")
    case True
    have "Content_loop src ps (bump C k) =
        Inr ((bump C k)[k := bump C k ! k + of_nat (length (filter P ps)),
              k' := bump C k ! k' + of_nat (length (filter (\<lambda>p. \<not> P p) ps))])"
      using Cons.prems by (intro Cons.IH rest) (simp_all add: bump_def)
    then show ?thesis using at p True Cons.prems(2-6)
      by (simp add: bump_def ac_simps)
  next
    case False
    have "Content_loop src ps (bump C k') =
        Inr ((bump C k')[k := bump C k' ! k + of_nat (length (filter P ps)),
              k' := bump C k' ! k' + of_nat (length (filter (\<lambda>p. \<not> P p) ps))])"
      using Cons.prems by (intro Cons.IH rest) (simp_all add: bump_def)
    then show ?thesis using at p False Cons.prems(2-6)
      by (simp add: bump_def ac_simps list_update_thrice)
  qed
qed

lemma pixels_nth3:
  assumes "j < n"
  shows "concat (replicate n [r, g, b, a]) ! nat (4 * int j + 3) = a"
proof -
  have i3: "nat (4 * int j + 3) = 4 * j + 3" by (simp add: nat_add_distrib nat_mult_distrib)
  show ?thesis
    unfolding i3 by (subst nth_concat_replicate [where m = 4]) (simp_all add: assms)
qed

lemma RGBA_At_uniform:
  "RGBA_At (uniform w h r g b a) x y =
     Inr (if PointIn x y (Rect (uniform w h r g b a))
          then (widen r, widen g, widen b, widen a) else (0, 0, 0, 0))"
proof (cases "PointIn x y (Rect (uniform w h r g b a))")
  case False
  then show ?thesis by (simp add: RGBA_At_def)
next
  case True
  then have x: "0 \<le> x" "x < int w" and y: "0 \<le> y" "y < int h"
    by (simp_all add: PointIn_def uniform_def)
  define j where "j = nat y * w + nat x"
  have "nat y * w + nat x < nat y * w + w" using x by simp
  also have "\<dots> = (nat y + 1) * w" by simp
  also have "\<dots> \<le> h * w" using y by (intro mult_le_mono1) simp
  finally have j: "j < w * h" by (simp add: j_def mult.commute)
  have off: "RGBA_PixOffset (uniform w h r g b a) x y = 4 * int j"
    using x y by (simp add: RGBA_PixOffset_def uniform_def j_def algebra_simps)
  let ?p = "Pix (uniform w h r g b a)"
  have pix: "?p = concat (replicate (w * h) [r, g, b, a])"
    by (simp add: uniform_def)
  have n: "?p ! nat (4 * int j) = r" "?p ! nat (4 * int j + 1) = g"
    "?p ! nat (4 * int j + 2) = b" "?p ! nat (4 * int j + 3) = a"
    unfolding pix using j by (simp_all only: pixels_nth pixels_nth3)
  have "int (4 * j + 4) \<le> int (4 * (w * h))" using j by (subst of_nat_le_iff) simp
  then have inb: "4 * int j + 4 \<le> int (length ?p)"
    unfolding pix pixels_length by simp
  have "0 \<le> 4 * int j" by simp
  then show ?thesis
    unfolding RGBA_At_def off Let_def using True n inb by simp
qed

lemma walk_column_in:
  "length (filter (\<lambda>(x, y). PointIn x y (Rect (uniform 2 65 10 20 30 255))) (walk column)) = 65"
  by (simp add: walk_def column_def uniform_def PointIn_def upto.simps)

lemma walk_column_out:
  "length (filter (\<lambda>p. \<not> (case p of (x, y) \<Rightarrow> PointIn x y (Rect (uniform 2 65 10 20 30 255)))) (walk column)) = 67"
  by (simp add: walk_def column_def uniform_def PointIn_def upto.simps)

lemma hist_column:
  "Content_hist (ImageRGBA (uniform 2 65 10 20 30 255)) column =
     Inr ((replicate 768 0)[20 := 65, 0 := 67])"
proof -
  let ?P = "\<lambda>(x, y). PointIn x y (Rect (uniform 2 65 10 20 30 255))"
  have k: "unat (bucketColor (widen 10) (widen 20) (widen 30)) = 20"
    by (simp add: bucketColor_def widen_def)
  have k': "unat (bucketColor 0 0 0) = 0"
    by (simp add: bucketColor_def)
  have "Content_loop (ImageRGBA (uniform 2 65 10 20 30 255)) (walk column) (replicate 768 0) =
      Inr ((replicate 768 0)[20 := replicate 768 0 ! 20 + of_nat (length (filter ?P (walk column))),
            0 := replicate 768 0 ! 0 + of_nat (length (filter (\<lambda>p. \<not> ?P p) (walk column)))])"
    by (rule Content_loop_two [where r = "widen 10" and g = "widen 20" and b = "widen 30"
          and a = "widen 255" and r' = 0 and g' = 0 and b' = 0 and a' = 0])
       (simp_all add: RGBA_At_uniform k k')
  then show ?thesis
    by (simp add: Content_hist_def walk_column_in walk_column_out)
qed

lemma RGBA_At_bands:
  "RGBA_At (bands w h1 h2 r g b a) x y =
     Inr (if PointIn x y (Rect (bands w h1 h2 r g b a)) \<and> y < int h1
          then (widen r, widen g, widen b, widen a) else (0, 0, 0, 0))"
proof (cases "PointIn x y (Rect (bands w h1 h2 r g b a))")
  case False
  then show ?thesis by (simp add: RGBA_At_def)
next
  case True
  then have x: "0 \<le> x" "x < int w" and y: "0 \<le> y" "y < int (h1 + h2)"
    by (simp_all add: PointIn_def bands_def)
  define j where "j = nat y * w + nat x"
  let ?A = "concat (replicate (w * h1) [r, g, b, a])"
  let ?Z = "replicate (4 * (w * h2)) (0 :: uint8)"
  let ?p = "Pix (bands w h1 h2 r g b a)"
  have pix: "?p = ?A @ ?Z" by (simp add: bands_def)
  have off: "RGBA_PixOffset (bands w h1 h2 r g b a) x y = 4 * int j"
    using x y by (simp add: RGBA_PixOffset_def bands_def j_def algebra_simps)
  have idx: "nat (4 * int j) = 4 * j" "nat (4 * int j + 1) = 4 * j + 1"
    "nat (4 * int j + 2) = 4 * j + 2" "nat (4 * int j + 3) = 4 * j + 3"
    by (simp_all add: nat_add_distrib nat_mult_distrib)
  have "nat y * w + nat x < nat y * w + w" using x by simp
  also have "\<dots> = (nat y + 1) * w" by simp
  also have "\<dots> \<le> (h1 + h2) * w" using y by (intro mult_le_mono1) linarith
  finally have j: "j < w * h1 + w * h2" by (simp add: j_def algebra_simps)
  have "int (4 * j + 4) \<le> int (4 * (w * h1) + 4 * (w * h2))" using j by (subst of_nat_le_iff) simp
  then have inb: "4 * int j + 4 \<le> int (length ?p)"
    unfolding pix by (simp add: pixels_length)
  have nonneg: "0 \<le> 4 * int j" by simp
  show ?thesis
  proof (cases "y < int h1")
    case upper: True
    have "nat y * w + nat x < nat y * w + w" using x by simp
    also have "\<dots> = (nat y + 1) * w" by simp
    also have "\<dots> \<le> h1 * w" using upper y by (intro mult_le_mono1) linarith
    finally have j1: "j < w * h1" by (simp add: j_def algebra_simps)
    have n: "?p ! nat (4 * int j) = r" "?p ! nat (4 * int j + 1) = g"
      "?p ! nat (4 * int j + 2) = b" "?p ! nat (4 * int j + 3) = a"
      unfolding pix using j1 pixels_nth [OF j1, of r g b a] pixels_nth3 [OF j1, of r g b a]
      by (simp_all add: nth_append pixels_length idx)
    show ?thesis
      unfolding RGBA_At_def off Let_def using True upper n inb nonneg by simp
  next
    case lower: False
    then have "h1 \<le> nat y" using y by linarith
    then have "h1 * w \<le> nat y * w" by (rule mult_le_mono1)
    then have "w * h1 \<le> nat y * w" by (simp only: mult.commute)
    then have j2: "w * h1 \<le> j" unfolding j_def by linarith
    have n: "?p ! nat (4 * int j) = 0" "?p ! nat (4 * int j + 1) = 0"
      "?p ! nat (4 * int j + 2) = 0" "?p ! nat (4 * int j + 3) = 0"
      unfolding pix idx using j j2 by (simp_all add: nth_append pixels_length)
    show ?thesis
      unfolding RGBA_At_def off Let_def using True lower n inb nonneg by (simp add: widen_def)
  qed
qed

lemma RGBA_At_stripes:
  "RGBA_At stripes x y =
     Inr (if PointIn x y (Rect stripes) \<and> y < 6
          then (widen 86, widen 85, widen 85, widen 255) else (0, 0, 0, 0))"
  using RGBA_At_bands [of 6 6 5 86 85 85 255 x y] by (simp add: stripes_def)

lemma walk_stripes_in:
  "length (filter (\<lambda>(x, y). PointIn x y (Rect stripes) \<and> y < 6) (walk (Rect stripes))) = 36"
  by (simp add: walk_def stripes_def bands_def PointIn_def upto.simps)

lemma walk_stripes_out:
  "length (filter (\<lambda>p. \<not> (case p of (x, y) \<Rightarrow> PointIn x y (Rect stripes) \<and> y < 6)) (walk (Rect stripes))) = 48"
  by (simp add: walk_def stripes_def bands_def PointIn_def upto.simps)

lemma hist_stripes:
  "Content_hist (ImageRGBA stripes) (Rect stripes) = Inr ((replicate 768 0)[85 := 36, 0 := 48])"
proof -
  let ?P = "\<lambda>(x, y). PointIn x y (Rect stripes) \<and> y < 6"
  have k: "unat (bucketColor (widen 86) (widen 85) (widen 85)) = 85"
    by (simp add: bucketColor_def widen_def)
  have k': "unat (bucketColor 0 0 0) = 0"
    by (simp add: bucketColor_def)
  have "Content_loop (ImageRGBA stripes) (walk (Rect stripes)) (replicate 768 0) =
      Inr ((replicate 768 0)[85 := replicate 768 0 ! 85 + of_nat (length (filter ?P (walk (Rect stripes)))),
            0 := replicate 768 0 ! 0 + of_nat (length (filter (\<lambda>p. \<not> ?P p) (walk (Rect stripes))))])"
    by (rule Content_loop_two [where r = "widen 86" and g = "widen 85" and b = "widen 85"
          and a = "widen 255" and r' = 0 and g' = 0 and b' = 0 and a' = 0])
       (simp_all add: RGBA_At_stripes k k')
  then show ?thesis
    by (simp add: Content_hist_def walk_stripes_in walk_stripes_out)
qed

subsection \<open>The two sets of tests\<close>

text \<open>
  What the tests of each walker compute, in integers, and where they agree: on the bytes
  \<open>r\<close> and \<open>g\<close> of a packed pixel the generic tests see \<open>257 * r\<close> and \<open>257 * g\<close>;
  the two sets of tests agree when \<open>g \<le> r\<close>, and the generic tests reject every pixel
  with \<open>r < g\<close>.
\<close>

lemma fge_fdiv:
  "0 < a \<Longrightarrow> 0 \<le> b \<Longrightarrow> fge (fdiv a b) (5 / 2) \<longleftrightarrow> 5 * b \<le> 2 * a"
  by (cases "b = 0") (auto simp add: fdiv_def field_simps)

lemma skinRGBA_iff:
  "skinRGBA r g \<longleftrightarrow>
     75 \<le> uint r \<and> 20 \<le> (uint r - uint g) mod 256 \<and> (uint r - uint g) mod 256 \<le> 90 \<and>
     2 * uint r < 5 * uint g"
proof -
  have sub: "uint (r - g) = (uint r - uint g) mod 256"
    by (simp add: uint_word_ariths)
  have lt: "r < 75 \<longleftrightarrow> uint r < 75" by (simp add: word_less_def)
  have d1: "r - g < 20 \<longleftrightarrow> (uint r - uint g) mod 256 < 20" by (simp add: word_less_def sub)
  have d2: "r - g > 90 \<longleftrightarrow> 90 < (uint r - uint g) mod 256" by (simp add: word_less_def sub)
  show ?thesis
  proof (cases "uint r < 75")
    case True
    then show ?thesis by (simp add: skinRGBA_def lt)
  next
    case False
    then have "fge (fdiv (uint r) (uint g)) (5 / 2) \<longleftrightarrow> 5 * uint g \<le> 2 * uint r"
      by (intro fge_fdiv) simp_all
    then show ?thesis using False by (auto simp add: skinRGBA_def lt d1 d2)
  qed
qed

lemma widen_add: "widen c = ucast c + push_bit 8 (ucast c)"
proof -
  have "ucast c + (push_bit 8 (ucast c) :: uint32) = ucast c OR push_bit 8 (ucast c)"
    by (rule disjunctive_add_eq_or) (auto simp add: bit_eq_iff bit_simps dest: bit_imp_le_length)
  then show ?thesis by (simp add: widen_def)
qed

lemma uint_widen: "uint (widen c) = 257 * uint c"
proof -
  have u: "uint (ucast c :: uint32) = uint c" by (simp add: uint_up_ucast is_up)
  have b: "uint c < 256" using uint_bounded [of c] by simp
  have "widen c = 257 * ucast c" by (simp add: widen_add push_bit_eq_mult)
  then have "uint (widen c) = (257 * uint c) mod 2 ^ 32" by (simp add: uint_word_ariths u)
  then show ?thesis using b by simp
qed

lemma skinColor_iff:
  "skinColor r g \<longleftrightarrow>
     19275 \<le> uint r \<and> 5140 \<le> (uint r - uint g) mod 4294967296 \<and>
     (uint r - uint g) mod 4294967296 \<le> 23130 \<and> 2 * uint r < 5 * uint g"
proof -
  have sub: "uint (r - g) = (uint r - uint g) mod 4294967296"
    by (simp add: uint_word_ariths)
  have lt: "r < minR \<longleftrightarrow> uint r < 19275" by (simp add: word_less_def minR_def)
  have d1: "r - g < minRGdelta \<longleftrightarrow> (uint r - uint g) mod 4294967296 < 5140"
    by (simp add: word_less_def sub minRGdelta_def)
  have d2: "r - g > maxRGdelta \<longleftrightarrow> 23130 < (uint r - uint g) mod 4294967296"
    by (simp add: word_less_def sub maxRGdelta_def)
  show ?thesis
  proof (cases "uint r < 19275")
    case True
    then show ?thesis by (simp add: skinColor_def lt)
  next
    case False
    then have "fge (fdiv (uint r) (uint g)) (5 / 2) \<longleftrightarrow> 5 * uint g \<le> 2 * uint r"
      by (intro fge_fdiv) simp_all
    then show ?thesis using False by (auto simp add: skinColor_def lt d1 d2)
  qed
qed

lemma skinColor_widen:
  "skinColor (widen r) (widen g) \<longleftrightarrow>
     75 \<le> uint r \<and> 20 \<le> uint r - uint g \<and> uint r - uint g \<le> 90 \<and> 2 * uint r < 5 * uint g"
proof -
  have r: "0 \<le> uint r" "uint r < 256" and g: "0 \<le> uint g" "uint g < 256"
    using uint_bounded [of r] uint_bounded [of g] by simp_all
  show ?thesis
  proof (cases "uint g \<le> uint r")
    case True
    then have "0 \<le> 257 * uint r - 257 * uint g" "257 * uint r - 257 * uint g < 4294967296"
      using r g by linarith+
    then have "(257 * uint r - 257 * uint g) mod 4294967296 = 257 * (uint r - uint g)"
      by (simp add: algebra_simps)
    then show ?thesis by (simp add: skinColor_iff uint_widen) linarith
  next
    case False
    then have "0 \<le> 4294967296 + (257 * uint r - 257 * uint g)"
        "4294967296 + (257 * uint r - 257 * uint g) < (4294967296 :: int)"
      using r g by linarith+
    then have "(4294967296 + (257 * uint r - 257 * uint g)) mod 4294967296 =
        4294967296 + (257 * uint r - 257 * uint g)"
      by (rule mod_pos_pos_trivial)
    moreover have "(257 * uint r - 257 * uint g) mod 4294967296 =
        (4294967296 + (257 * uint r - 257 * uint g)) mod 4294967296"
      by simp
    ultimately have "(257 * uint r - 257 * uint g) mod 4294967296 =
        4294967296 + (257 * uint r - 257 * uint g)"
      by (simp only:)
    then show ?thesis using False r g by (simp add: skinColor_iff uint_widen)
  qed
qed

lemma skin_agree:
  "uint g \<le> uint r \<Longrightarrow> skinColor (widen r) (widen g) = skinRGBA r g"
proof -
  assume le: "uint g \<le> uint r"
  have "uint r < 256" using uint_bounded [of r] by simp
  then have "0 \<le> uint r - uint g" "uint r - uint g < 256"
    using le uint_ge_0 [of g] by linarith+
  then have "(uint r - uint g) mod 256 = uint r - uint g" by (rule mod_pos_pos_trivial)
  then show ?thesis by (simp add: skinColor_widen skinRGBA_iff)
qed

lemma skin_disagree:
  "uint r < uint g \<Longrightarrow> \<not> skinColor (widen r) (widen g)"
  by (simp add: skinColor_widen)

subsection \<open>The coordinates of the generic loops\<close>

lemma set_walk:
  "set (walk r) = {(x, y). MinX r \<le> x \<and> x \<le> MaxX r \<and> MinY r \<le> y \<and> y \<le> MaxY r}"
  by (auto simp add: walk_def)

lemma walk_beyond_bounds:
  "MinX r \<le> MaxX r \<Longrightarrow> MinY r \<le> MaxY r \<Longrightarrow>
   (MaxX r, MinY r) \<in> set (walk r) \<and> \<not> PointIn (MaxX r) (MinY r) r"
  by (simp add: set_walk PointIn_def)

subsection \<open>The panics of the mask walkers\<close>

lemma RGBA_loop_panic:
  "skinMaskColorRGBA_loop pix ep sp mp n mpix = Inl e \<Longrightarrow> e = IndexOutOfRange"
proof (induction pix ep sp mp n mpix rule: skinMaskColorRGBA_loop.induct)
  case (1 pix ep sp mp n mpix)
  from "1.prems" show ?case
    by (subst (asm) skinMaskColorRGBA_loop.simps) (auto split: if_splits dest: "1.IH")
qed

lemma At_panic: "At src x y = Inl e \<Longrightarrow> e = IndexOutOfRange"
  by (cases src) (auto simp add: RGBA_At_def Let_def split: if_splits)

lemma SetOpaque_panic: "SetOpaque msk x y = Inl e \<Longrightarrow> e = IndexOutOfRange"
  by (cases msk) (auto simp add: Alpha_SetOpaque_def Let_def split: if_splits sum.splits)

lemma generic_loop_panic:
  "skinMaskColor_loop src ps st = Inl e \<Longrightarrow> e = IndexOutOfRange"
proof (induction src ps st rule: skinMaskColor_loop.induct)
  case (1 src st)
  then show ?case by simp
next
  case (2 src x y ps msk m calls)
  from "2.prems" show ?case
    by (auto split: sum.splits prod.splits if_splits dest: At_panic SetOpaque_panic "2.IH")
qed

lemma generic_panic: "skinMaskColor_generic src msk = Inl e \<Longrightarrow> e = IndexOutOfRange"
  by (auto simp add: skinMaskColor_generic_def skinMaskColor_walk_def Let_def
      split: sum.splits prod.splits dest: generic_loop_panic)

lemma RGBA_panic: "Rect s = ARect p \<Longrightarrow> skinMaskColorRGBA s p = Inl e \<Longrightarrow> e = IndexOutOfRange"
  by (auto simp add: skinMaskColorRGBA_def Let_def split: sum.splits prod.splits dest: RGBA_loop_panic)

section \<open>The claims\<close>

text \<open>
  C1. The claim: for every packed RGBA source and a fresh mask of the same bounds, the
  generic walk and the packed walker give the same mask and the same coverage. On the 1x1
  image \<open>greenish\<close> (R = 75, G = 255) they do not: the packed walker subtracts bytes,
  \<open>75 - 255 = 76\<close>, finds the pixel in the band from 20 to 90 and sets the mask cell, with
  coverage 1; the generic walk subtracts in 32 bits, rejects the pixel and leaves the cell
  at 0, with coverage 0.
\<close>

theorem mask_paths_differ:
  "NewAlpha (Rect greenish) = Inr cell \<and>
   skinMaskColorRGBA greenish cell = Inr (cell\<lparr>APix := [255]\<rparr>, Finite 1) \<and>
   skinMaskColor_generic (ImageRGBA greenish) (DrawAlpha cell) = Inr (DrawAlpha cell, Finite 0)"
  by (simp add: greenish_def cell_def mask_defs)

text \<open>
  C2. The claim: where both content paths apply, they return the same score. On the image
  \<open>stripes\<close> they do not. \<open>contentRGBA\<close> adds the bytes 86, 85 and 85 in \<open>uint8\<close>, gets
  0, and counts the 36 coloured pixels in bucket 0 with the 30 black ones: 66 is above the
  threshold and the score is 1, which is what \<open>Content\<close> returns. The generic loop of
  \<open>Content\<close> adds in \<open>uint32\<close> and counts the 36 coloured pixels in bucket 85; bucket 0
  gets 48, the 30 black pixels and the 18 coordinates at \<open>x = r.Max.X\<close> or
  \<open>y = r.Max.Y\<close>; no bucket is above the threshold and the score is 0. On the black image
  \<open>black64\<close>, 1 pixel wide and 64 high, it is the coordinates at the maximum that make the
  difference: \<open>contentRGBA\<close> counts 64 pixels and returns 0, the generic loop visits 130
  coordinates and gives 1.
\<close>

theorem content_paths_differ:
  "contentRGBA stripes = Inr 1 \<and>
   Content (ImageRGBA stripes) (Rect stripes) = Inr 1 \<and>
   Content_generic (ImageRGBA stripes) (Rect stripes) = Inr 0 \<and>
   contentRGBA black64 = Inr 0 \<and>
   Content_generic (ImageRGBA black64) (Rect black64) = Inr 1"
proof -
  have fast: "contentRGBA stripes = Inr 1"
    by code_simp
  have "score ((replicate 768 0)[85 := 36, 0 := 48]) = 0"
    by (simp add: score_def replicate_numeral list_update_numeral)
  then have gen: "Content_generic (ImageRGBA stripes) (Rect stripes) = Inr 0"
    by (simp add: Content_generic_def hist_stripes)
  have fast': "contentRGBA black64 = Inr 0"
    by code_simp
  have "Content_hist (ImageRGBA black64) (Rect black64) = Inr ((replicate 768 0)[0 := 130])"
    unfolding Content_hist_def
    by (subst Content_loop_const [where r = 0 and g = 0 and b = 0 and a = 0 and k = 0])
       (simp_all add: RGBA_At_black64 bucketColor_def length_walk, simp add: black64_def)
  then have gen': "Content_generic (ImageRGBA black64) (Rect black64) = Inr 1"
    by (simp add: Content_generic_def score_def replicate_numeral)
  show ?thesis using fast gen fast' gen' by (simp add: Content_def)
qed

text \<open>
  C3. The claim: with a non-empty region the coverage is in [0,1], and it is 1 when every
  pixel of the region is skin. On the 2x1 image \<open>pair\<close> with the 1x1 mask \<open>cell\<close> over
  its left pixel, the walk also counts the right pixel, at \<open>x = r.Max.X\<close>, and returns
  the coverage 2/1.
\<close>

theorem coverage_two:
  "Dx (ARect cell) * Dy (ARect cell) = 1 \<and>
   SkinMask (ImageRGBA pair) (Some (DrawAlpha cell)) =
     Inr (DrawAlpha (cell\<lparr>APix := [255]\<rparr>), Finite 2)"
  by (simp add: pair_def cell_def mask_defs)

text \<open>
  C4. The claim: a pixel is skin if and only if \<open>R \<ge> 75\<close>, \<open>20 \<le> R - G \<le> 90\<close> and
  \<open>R / G < 2.5\<close>. For R = 75 and G = 255 the difference is -180, outside the band, yet
  the packed walker's tests accept the pixel, and \<open>SkinMask\<close> on the image \<open>greenish\<close>
  marks it; the generic tests reject the same pixel.
\<close>

theorem skinRGBA_accepts_green:
  "uint (75 :: uint8) - uint (255 :: uint8) = - 180 \<and>
   skinRGBA 75 255 \<and>
   \<not> skinColor (widen 75) (widen 255) \<and>
   SkinMask (ImageRGBA greenish) None = Inr (DrawAlpha (cell\<lparr>APix := [255]\<rparr>), Finite 1)"
  by (simp add: greenish_def cell_def mask_defs)

text \<open>
  C5. On the 2x2 image of the scenario, whatever its alpha bytes, \<open>SkinMask\<close> with no mask
  sets exactly the cell of the pixel (150,110,60), the second of the buffer, and returns
  the coverage 1/4.
\<close>

theorem scenario_mask:
  "SkinMask (ImageRGBA (scenario a1 a2 a3 a4)) None =
     Inr (DrawAlpha \<lparr>APix = [0, 255, 0, 0], AStride = 2,
                      ARect = \<lparr>MinX = 0, MinY = 0, MaxX = 2, MaxY = 2\<rparr>\<rparr>,
          Finite (1 / 4))"
  by (simp add: scenario_def mask_defs replicate_numeral list_update_numeral)

text \<open>
  C6. The claim: on an image of one colour the histogram has one occupied bucket, and the
  score is 0 if the bucket's count is at most 64 and 1 otherwise. On a 16x16 image of one
  colour the bucket receives 256 pixels; the byte that counts them wraps to 0 and the score
  is 0, for \<open>contentRGBA\<close> and for \<open>Content\<close> on the full bounds. On the rightmost
  column of a 2x65 image of one colour the generic loop counts the 65 pixels of the column
  in bucket 20 and the 67 coordinates at \<open>x = r.Max.X\<close> or \<open>y = r.Max.Y\<close>, outside the
  image, in bucket 0: two buckets are above the threshold and the score is 2.
\<close>

theorem content_uniform_256:
  "contentRGBA (uniform 16 16 10 20 30 255) = Inr 0 \<and>
   Content (ImageRGBA (uniform 16 16 10 20 30 255)) (Rect (uniform 16 16 10 20 30 255)) = Inr 0 \<and>
   Content (ImageRGBA (uniform 2 65 10 20 30 255)) column = Inr 2"
proof -
  have "score ((replicate 768 0)[20 := 65, 0 := 67]) = 2"
    by (simp add: score_def replicate_numeral list_update_numeral)
  then have "Content (ImageRGBA (uniform 2 65 10 20 30 255)) column = Inr 2"
    by (simp add: Content_def Content_generic_def hist_column) (simp add: uniform_def column_def)
  then show ?thesis
    by (simp add: contentRGBA_uniform Content_def)
qed

text \<open>
  C7. \<open>SkinMask\<close> never ends in the panic of \<open>skinMaskColorRGBA\<close>, whatever source and
  mask it is given; and on a \<open>*image.RGBA\<close> source and an \<open>*image.Alpha\<close> mask of
  different bounds it is the generic walk that runs.
\<close>

theorem SkinMask_no_SubimageMask:
  "SkinMask src mask0 \<noteq> Inl SubimageMask \<and>
   (Rect s \<noteq> ARect p \<longrightarrow>
      SkinMask (ImageRGBA s) (Some (DrawAlpha p)) =
        skinMaskColor_generic (ImageRGBA s) (DrawAlpha p))"
proof
  show "SkinMask src mask0 \<noteq> Inl SubimageMask"
  proof
    assume "SkinMask src mask0 = Inl SubimageMask"
    then show False
      unfolding SkinMask_def skinMaskColor_def
      by (auto simp add: NewAlpha_def
          split: option.splits sum.splits prod.splits Image.splits DrawImage.splits if_splits
          dest: generic_panic RGBA_panic)
  qed
next
  show "Rect s \<noteq> ARect p \<longrightarrow>
      SkinMask (ImageRGBA s) (Some (DrawAlpha p)) =
        skinMaskColor_generic (ImageRGBA s) (DrawAlpha p)"
    by (simp add: SkinMask_def skinMaskColor_def)
qed

theorem SkinMask_no_SubimageMask_witness:
  "Rect pair \<noteq> ARect cell \<and>
   SkinMask (ImageRGBA pair) (Some (DrawAlpha cell :: unit DrawImage)) \<noteq> Inl SubimageMask \<and>
   SkinMask (ImageRGBA pair) (Some (DrawAlpha cell :: unit DrawImage)) =
     skinMaskColor_generic (ImageRGBA pair) (DrawAlpha cell)"
proof -
  have h: "Rect pair \<noteq> ARect cell" by (simp add: pair_def cell_def)
  show ?thesis
    using h SkinMask_no_SubimageMask
      [of "ImageRGBA pair" "Some (DrawAlpha cell :: unit DrawImage)" pair cell]
    by simp
qed

text \<open>
  C8. A pixel whose green channel is 0: the quotient \<open>float32(r)/float32(0)\<close> is a float,
  NaN or +Inf, not a panic; both sets of tests reject the pixel; and the step of either
  loop on such a pixel goes on to the next pixel with the mask and the count unchanged.
\<close>

theorem green_zero_not_skin:
  "fdiv (uint (r :: uint8)) 0 \<in> {NaN, PosInf} \<and> fdiv (uint (r' :: uint32)) 0 \<in> {NaN, PosInf} \<and>
   \<not> skinRGBA r 0 \<and> \<not> skinColor r' 0 \<and>
   (sp \<noteq> ep \<and> 0 \<le> sp \<and> sp + 1 < int (length pix) \<and> pix ! nat (sp + 1) = 0 \<longrightarrow>
      skinMaskColorRGBA_loop pix ep sp mp n mpix =
        skinMaskColorRGBA_loop pix ep (sp + 4) (mp + 1) n mpix) \<and>
   (At src x y = Inr (r', 0, b, a) \<longrightarrow>
      skinMaskColor_loop src ((x, y) # ps) (msk, m, calls) =
        skinMaskColor_loop src ps (msk, m, calls @ [CallAt x y]))"
proof -
  have nonneg: "0 \<le> k \<Longrightarrow> fdiv k 0 \<in> {NaN, PosInf}" for k
    by (cases "k = 0") (simp_all add: fdiv_def)
  have f8: "fdiv (uint r) 0 \<in> {NaN, PosInf}" and f32: "fdiv (uint r') 0 \<in> {NaN, PosInf}"
    by (rule nonneg, simp)+
  have s8: "\<not> skinRGBA r 0" for r
    by (auto simp add: skinRGBA_def fdiv_def word_less_def word_le_def)
  have s32: "\<not> skinColor r' 0"
    by (auto simp add: skinColor_def fdiv_def minR_def word_less_def word_le_def)
  have l8: "sp \<noteq> ep \<and> 0 \<le> sp \<and> sp + 1 < int (length pix) \<and> pix ! nat (sp + 1) = 0 \<longrightarrow>
      skinMaskColorRGBA_loop pix ep sp mp n mpix =
        skinMaskColorRGBA_loop pix ep (sp + 4) (mp + 1) n mpix"
    by (subst skinMaskColorRGBA_loop.simps) (simp add: s8)
  have l32: "At src x y = Inr (r', 0, b, a) \<longrightarrow>
      skinMaskColor_loop src ((x, y) # ps) (msk, m, calls) =
        skinMaskColor_loop src ps (msk, m, calls @ [CallAt x y])"
    by (simp add: s32)
  show ?thesis using f8 f32 s8 s32 l8 l32 by blast
qed

theorem green_zero_not_skin_witness:
  "(0 :: int) \<noteq> 4 \<and> (0 :: int) \<le> 0 \<and> (0 :: int) + 1 < int (length [80, 0, 0, 255 :: uint8]) \<and>
   [80, 0, 0, 255 :: uint8] ! nat (0 + 1) = 0 \<and>
   At (ImageRGBA \<lparr>Pix = [80, 0, 0, 255], Stride = 4, Rect = ARect cell\<rparr>) 0 0 =
     Inr (widen 80, 0, 0, widen 255) \<and>
   \<not> skinRGBA 80 0 \<and> \<not> skinColor (widen 80) 0 \<and>
   skinMaskColorRGBA_loop [80, 0, 0, 255] 4 0 (- 1) 0 [0] = Inr ([0], 0) \<and>
   skinMaskColor_loop (ImageRGBA \<lparr>Pix = [80, 0, 0, 255], Stride = 4, Rect = ARect cell\<rparr>)
     [(0, 0)] (DrawAlpha cell :: unit DrawImage, 0, []) = Inr (DrawAlpha cell, 0, [CallAt 0 0])"
proof -
  let ?src = "ImageRGBA \<lparr>Pix = [80, 0, 0, 255], Stride = 4, Rect = ARect cell\<rparr>"
  have h1: "(0 :: int) \<noteq> 4 \<and> (0 :: int) \<le> 0 \<and> (0 :: int) + 1 < int (length [80, 0, 0, 255 :: uint8]) \<and>
      [80, 0, 0, 255 :: uint8] ! nat (0 + 1) = 0"
    by simp
  have h2: "At ?src 0 0 = Inr (widen 80, 0, 0, widen 255)"
    by (simp add: cell_def RGBA_At_def PointIn_def RGBA_PixOffset_def widen_def)
  have fin: "skinMaskColorRGBA_loop [80, 0, 0, 255] 4 (0 + 4) (- 1 + 1) 0 [0] = Inr ([0], 0)"
    by (subst skinMaskColorRGBA_loop.simps) simp
  show ?thesis
    using h1 h2 fin
      green_zero_not_skin [of 80 "widen 80" 0 4 "[80, 0, 0, 255]" "- 1" 0 "[0]" ?src 0 0 0
        "widen 255" "[]" "DrawAlpha cell :: unit DrawImage" 0 "[]"]
    by simp
qed

text \<open>
  C9. The claim: no source pixel outside the mask's bounds is read. With the 2x1 image
  \<open>pair\<close> and the 1x1 mask \<open>cell\<close>, the walk calls \<open>At\<close> at (1,0), (0,1) and (1,1),
  all outside the mask's bounds, the first of them a pixel of the source; it also calls
  \<open>Set\<close> at (1,0), which an \<open>*image.Alpha\<close> ignores.
\<close>

theorem walk_leaves_mask_bounds:
  "skinMaskColor_walk (ImageRGBA pair) (DrawAlpha cell) =
     Inr (DrawAlpha (cell\<lparr>APix := [255]\<rparr>), Finite 2,
          [CallAt 0 0, CallSet 0 0, CallAt 1 0, CallSet 1 0, CallAt 0 1, CallAt 1 1]) \<and>
   \<not> PointIn 1 0 (ARect cell) \<and> PointIn 1 0 (Rect pair) \<and>
   \<not> PointIn 0 1 (ARect cell) \<and> \<not> PointIn 1 1 (ARect cell)"
  by (simp add: pair_def cell_def mask_defs)

text \<open>
  C10. In \<open>contentRGBA\<close> the index of the bucket is the sum of the three bytes modulo 256,
  divided by 3: a white pixel (255,255,255) counts in bucket 84, as the histogram of a 1x1
  white image shows.
\<close>

theorem bucketRGBA_wraps:
  "unat (bucketRGBA r g b) = ((unat r + unat g + unat b) mod 256) div 3 \<and>
   bucketRGBA 255 255 255 = 84 \<and>
   contentRGBA_hist (uniform 1 1 255 255 255 a) = Inr ((replicate 256 0)[84 := 1])"
proof -
  have "unat (bucketRGBA r g b) = ((unat r + unat g + unat b) mod 256) div 3"
    by (simp add: bucketRGBA_def unat_div unat_word_ariths mod_simps)
  moreover have w: "bucketRGBA 255 255 255 = 84"
    by (simp add: bucketRGBA_def)
  ultimately show ?thesis
    by (simp add: contentRGBA_hist_uniform)
qed

end
